theory Spec2Isabelle
  imports Complex_Main
begin

section \<open>Python values: exceptions and floats\<close>

text \<open>
  The exception classes that \<^verbatim>\<open>main.py\<close> raises itself or can receive from the calls
  it makes. \<open>KeyboardInterrupt\<close> and \<open>SystemExit\<close> derive from \<open>BaseException\<close> only;
  every other class derives from \<open>Exception\<close>, which is what the handler
  \<^verbatim>\<open>except Exception as e\<close> of \<open>main\<close> tests.
\<close>

datatype cls =
    ValueError | RuntimeError | TypeError | KeyError | ZeroDivisionError
  | HTTPError | ConnectionError | JSONDecodeError
  | KeyboardInterrupt | SystemExit

datatype exn = Exn cls string

fun exn_cls :: "exn \<Rightarrow> cls" where
  "exn_cls (Exn c m) = c"



text \<open>
  A Python float as far as the comparisons of the source need it: a finite value, an
  infinity or NaN. \<open>fle\<close> is Python's \<^verbatim>\<open><=\<close>: every comparison with NaN is false.
\<close>

datatype pyfloat = Fin rat | PosInf | NegInf | NaN

fun fle :: "pyfloat \<Rightarrow> pyfloat \<Rightarrow> bool" where
  "fle NaN y = False"
| "fle x NaN = False"
| "fle NegInf y = True"
| "fle x PosInf = True"
| "fle (Fin a) (Fin b) = (a \<le> b)"
| "fle x y = False"

section \<open>The detector object\<close>

record detector =
  rtsp_url :: string
  api_url :: string
  max_fps :: int
  prompt :: string
  threshold :: pyfloat
  workspace_name :: string
  workflow_id :: string
  pipeline_id :: string

text \<open>
  \<^verbatim>\<open>FerretDetector.__init__\<close>: the two checks, in the source's order, then the fields.
  The constructor of the inference client only stores the URL it is given and is taken
  to return.
\<close>

definition FerretDetector_init ::
  "string \<Rightarrow> string \<Rightarrow> int \<Rightarrow> string \<Rightarrow> pyfloat \<Rightarrow> string \<Rightarrow> string \<Rightarrow> exn + detector" where
  "FerretDetector_init url api fps p t wsn wfid =
     (if url = [] then Inl (Exn ValueError ''RTSP URL cannot be empty'')
      else if \<not> (fle (Fin 0) t \<and> fle t (Fin 1))
        then Inl (Exn ValueError ''Threshold must be between 0.0 and 1.0'')
      else Inr \<lparr>rtsp_url = url, api_url = api, max_fps = fps, prompt = p, threshold = t,
                workspace_name = wsn, workflow_id = wfid, pipeline_id = []\<rparr>)"

definition is_running :: "detector \<Rightarrow> bool" where
  "is_running d = (pipeline_id d \<noteq> [])"

text \<open>
  The request that \<open>start\<close> hands to the inference client, and the client's answer:
  an exception, or the pipeline identifier found under
  \<^verbatim>\<open>result["context"]["pipeline_id"]\<close>.
\<close>

record start_request =
  video_reference :: "string list"
  req_workspace_name :: string
  req_workflow_id :: string
  req_max_fps :: int
  req_prompt :: string
  req_threshold :: pyfloat

text \<open>
  \<^verbatim>\<open>FerretDetector.start\<close>. The method mutates the object, so the model returns the
  exception raised (if any) together with the object as the call leaves it.
\<close>

definition start ::
  "(start_request \<Rightarrow> exn + string) \<Rightarrow> detector \<Rightarrow> int option \<Rightarrow> exn option \<times> detector" where
  "start client d fps_arg =
     (if is_running d then (Some (Exn RuntimeError ''Pipeline is already running''), d)
      else
        let fps = (case fps_arg of Some f \<Rightarrow> f | None \<Rightarrow> max_fps d) in
        (case client \<lparr>video_reference = [rtsp_url d],
                      req_workspace_name = workspace_name d,
                      req_workflow_id = workflow_id d,
                      req_max_fps = fps,
                      req_prompt = prompt d,
                      req_threshold = threshold d\<rparr> of
           Inl e \<Rightarrow> (Some e, d)
         | Inr pid \<Rightarrow> (None, d\<lparr>pipeline_id := pid\<rparr>)))"


section \<open>Alert delivery\<close>

text \<open>
  What \<^verbatim>\<open>requests.post\<close> gives back: a transport failure (an exception), or a response
  with a status code and a body, \<open>None\<close> when the body is not JSON.
\<close>

record http_response =
  status_code :: int
  json_body :: "string option"

text \<open>
  \<^verbatim>\<open>Response.raise_for_status\<close> of the requests library raises \<open>HTTPError\<close> for the
  client and server error statuses, 400 to 599, and returns otherwise.
\<close>

definition raise_for_status :: "http_response \<Rightarrow> exn option" where
  "raise_for_status r =
     (if 400 \<le> status_code r \<and> status_code r < 600
      then Some (Exn HTTPError ''HTTP error status'') else None)"

text \<open>
  \<^verbatim>\<open>create_pagerduty_incident\<close>: one POST, \<open>raise_for_status\<close>, then the parsed body.
  The payload is built from the arguments and does not influence what comes back, so
  the model takes the outcome of the POST.
\<close>

definition create_pagerduty_incident :: "exn + http_response \<Rightarrow> exn + string" where
  "create_pagerduty_incident posted =
     (case posted of
        Inl e \<Rightarrow> Inl e
      | Inr r \<Rightarrow>
          (case raise_for_status r of
             Some e \<Rightarrow> Inl e
           | None \<Rightarrow>
               (case json_body r of
                  None \<Rightarrow> Inl (Exn JSONDecodeError ''response body is not JSON'')
                | Some ack \<Rightarrow> Inr ack)))"

section \<open>The detection loop\<close>

text \<open>
  One element of \<^verbatim>\<open>result["outputs"]\<close>. \<open>is_match\<close> is the truth value of
  \<^verbatim>\<open>output.get("is_match")\<close>; \<open>similarity\<close> is \<open>None\<close> when the key is absent, and then
  \<^verbatim>\<open>output.get("similarity")*100\<close> raises \<open>TypeError\<close>.
\<close>

record pipeline_output =
  is_match :: bool
  similarity :: "pyfloat option"

text \<open>
  The two local variables of \<open>consume\<close>. The source adds the float \<^verbatim>\<open>1/self.max_fps\<close>
  to \<open>confidence_elapsed\<close>; the model adds the exact quotient, which is what the float
  sum is whenever \<open>max_fps\<close> is a power of two (4 by default).
\<close>

record window =
  confidence :: int
  confidence_elapsed :: rat

text \<open>
  What the outside world does during one iteration of \<^verbatim>\<open>while True\<close>: the answer of
  \<^verbatim>\<open>consume_inference_pipeline_result\<close> (an exception, or the outputs list, an absent
  first element being \<open>None\<close>), the outcome of the POST should an alert be sent, and
  whether \<^verbatim>\<open>time.sleep\<close> is interrupted by an exception.
\<close>

record iter_env =
  poll :: "exn + pipeline_output option list"
  post :: "exn + http_response"
  sleep :: "exn option"

text \<open>
  What one iteration did: whether \<open>create_pagerduty_incident\<close> was called, and how the
  iteration ended, with an exception leaving \<open>consume\<close> or with the window as the next
  iteration finds it.
\<close>

record step =
  dispatched :: bool
  outcome :: "exn + window"

text \<open>
  The tail of an iteration, from the comment \<^verbatim>\<open># reset confidence every 10 seconds\<close>
  on: \<open>c\<close> is \<open>confidence\<close> as the alert block left it.
\<close>

definition finish_tick :: "detector \<Rightarrow> iter_env \<Rightarrow> window \<Rightarrow> int \<Rightarrow> exn + window" where
  "finish_tick d env w c =
     (let c' = (if confidence_elapsed w \<ge> 10 then 0 else c) in
      if max_fps d = 0 then Inl (Exn ZeroDivisionError ''division by zero'')
      else
        let dt = 1 / of_int (max_fps d) in
        if dt < 0 then Inl (Exn ValueError ''sleep length must be non-negative'')
        else
          (case sleep env of
             Some e \<Rightarrow> Inl e
           | None \<Rightarrow> Inr \<lparr>confidence = c', confidence_elapsed = confidence_elapsed w + dt\<rparr>))"

definition iteration :: "detector \<Rightarrow> iter_env \<Rightarrow> window \<Rightarrow> step" where
  "iteration d env w =
     (case poll env of
        Inl e \<Rightarrow> \<lparr>dispatched = False, outcome = Inl e\<rparr>
      | Inr outputs \<Rightarrow>
          (case outputs of
             [] \<Rightarrow> \<lparr>dispatched = False, outcome = Inr w\<rparr>
           | None # rest \<Rightarrow> \<lparr>dispatched = False, outcome = Inr w\<rparr>
           | Some out # rest \<Rightarrow>
               (case similarity out of
                  None \<Rightarrow> \<lparr>dispatched = False,
                            outcome = Inl (Exn TypeError ''unsupported operand type(s) for *'')\<rparr>
                | Some s \<Rightarrow>
                    let c = (if is_match out then confidence w + 1 else confidence w) in
                    if c \<ge> 15 then
                      (case create_pagerduty_incident (post env) of
                         Inl e \<Rightarrow> \<lparr>dispatched = True, outcome = Inl e\<rparr>
                       | Inr ack \<Rightarrow> \<lparr>dispatched = True, outcome = finish_tick d env w 0\<rparr>)
                    else \<lparr>dispatched = False, outcome = finish_tick d env w c\<rparr>)))"

text \<open>
  The loop never ends by itself, so a run is given by what the outside world does in
  its first iterations: the model returns what each of them did and stops after the
  first one that raises.
\<close>

fun consume_loop :: "detector \<Rightarrow> window \<Rightarrow> iter_env list \<Rightarrow> step list" where
  "consume_loop d w [] = []"
| "consume_loop d w (env # envs) =
     (let s = iteration d env w in
      s # (case outcome s of Inl e \<Rightarrow> [] | Inr w' \<Rightarrow> consume_loop d w' envs))"

text \<open>The two counters as \<open>consume\<close> initialises them.\<close>

definition window0 :: window where
  "window0 = \<lparr>confidence = 0, confidence_elapsed = 0\<rparr>"

definition consume :: "detector \<Rightarrow> iter_env list \<Rightarrow> step list" where
  "consume d envs = consume_loop d window0 envs"


text \<open>The number of calls of \<open>create_pagerduty_incident\<close> in a run.\<close>

definition dispatches :: "step list \<Rightarrow> nat" where
  "dispatches steps = length (filter dispatched steps)"

text \<open>
  The window with which the iteration after the given ones starts, \<open>None\<close> when the
  run has ended with an exception.
\<close>

definition window_after :: "window \<Rightarrow> step list \<Rightarrow> window option" where
  "window_after w steps =
     (if steps = [] then Some w
      else (case outcome (last steps) of Inl e \<Rightarrow> None | Inr w' \<Rightarrow> Some w'))"

text \<open>
  An iteration that gets a result to process: the poll returns, and the first element
  of the outputs is present and carries a numeric similarity.
\<close>

definition tick_of :: "iter_env \<Rightarrow> pipeline_output option" where
  "tick_of env =
     (case poll env of
        Inl e \<Rightarrow> None
      | Inr outputs \<Rightarrow>
          (case outputs of
             [] \<Rightarrow> None
           | None # rest \<Rightarrow> None
           | Some out # rest \<Rightarrow> (if similarity out = None then None else Some out)))"

definition positive :: "iter_env \<Rightarrow> bool" where
  "positive env = (case tick_of env of None \<Rightarrow> False | Some out \<Rightarrow> is_match out)"


text \<open>
  Two runs that differ in similarity values only: the polls raise the same exception,
  or return outputs lists of the same shape whose elements agree on \<open>is_match\<close> and
  both carry a numeric similarity; everything else the outside world does is the same.
\<close>

fun same_flag :: "pipeline_output option \<Rightarrow> pipeline_output option \<Rightarrow> bool" where
  "same_flag None None = True"
| "same_flag (Some a) (Some b) =
     (is_match a = is_match b \<and> similarity a \<noteq> None \<and> similarity b \<noteq> None)"
| "same_flag x y = False"

fun same_poll ::
  "exn + pipeline_output option list \<Rightarrow> exn + pipeline_output option list \<Rightarrow> bool" where
  "same_poll (Inl e) (Inl e') = (e = e')"
| "same_poll (Inr xs) (Inr ys) = list_all2 same_flag xs ys"
| "same_poll x y = False"

definition agree :: "iter_env \<Rightarrow> iter_env \<Rightarrow> bool" where
  "agree a b = (same_poll (poll a) (poll b) \<and> post a = post b \<and> sleep a = sleep b)"

section \<open>The context manager and \<open>main\<close>\<close>










text \<open>
  The threshold range of the configuration, \<open>[0.0, 1.0]\<close>: a finite number between
  the two bounds.
\<close>

definition in_unit_interval :: "pyfloat \<Rightarrow> bool" where
  "in_unit_interval t = (case t of Fin q \<Rightarrow> 0 \<le> q \<and> q \<le> 1 | _ \<Rightarrow> False)"

section \<open>Example runs\<close>

text \<open>
  A detector at the default 4 frames per second whose pipeline is running, and the
  iterations the examples below are made of: a tick without a match, a tick with a
  match, the same with another similarity, a tick whose alert the endpoint answers with
  status 500, a tick whose pause is interrupted from the keyboard, and two polls
  without a result.
\<close>

definition d4 :: detector where
  "d4 = \<lparr>rtsp_url = ''rtsp://cam/live'', api_url = ''http://localhost:9001'', max_fps = 4,
         prompt = ''ferret'', threshold = Fin (16/100), workspace_name = ''local'',
         workflow_id = ''clip-frames'', pipeline_id = ''p1''\<rparr>"

definition accepted :: "exn + http_response" where
  "accepted = Inr \<lparr>status_code = 202, json_body = Some ''{status: success}''\<rparr>"

definition quiet :: iter_env where
  "quiet = \<lparr>poll = Inr [Some \<lparr>is_match = False, similarity = Some (Fin (1/10))\<rparr>],
            post = accepted, sleep = None\<rparr>"

definition hit :: iter_env where
  "hit = \<lparr>poll = Inr [Some \<lparr>is_match = True, similarity = Some (Fin (9/10))\<rparr>],
            post = accepted, sleep = None\<rparr>"

definition hit_dim :: iter_env where
  "hit_dim = \<lparr>poll = Inr [Some \<lparr>is_match = True, similarity = Some (Fin (17/100))\<rparr>],
            post = accepted, sleep = None\<rparr>"



definition idle :: iter_env where
  "idle = \<lparr>poll = Inr [], post = accepted, sleep = None\<rparr>"

definition absent :: iter_env where
  "absent = \<lparr>poll = Inr [None], post = accepted, sleep = None\<rparr>"

definition client_ok :: "start_request \<Rightarrow> exn + string" where
  "client_ok req = Inr ''p1''"




section \<open>Single iterations\<close>

lemma finish_tick_Inr:
  assumes "finish_tick d env w c = Inr w'"
  shows "0 < max_fps d \<and> sleep env = None
       \<and> confidence w' = (if confidence_elapsed w \<ge> 10 then 0 else c)
       \<and> confidence_elapsed w' = confidence_elapsed w + 1 / of_int (max_fps d)
       \<and> confidence_elapsed w < confidence_elapsed w'"
proof -
  have nz: "max_fps d \<noteq> 0" using assms by (auto simp: finish_tick_def Let_def split: if_splits)
  have nn: "\<not> (1 / (of_int (max_fps d) :: rat) < 0)"
    using assms nz by (auto simp: finish_tick_def Let_def split: if_splits)
  then have pos: "0 < max_fps d" using nz by (cases "max_fps d < 0") auto
  show ?thesis using assms nz nn pos
    by (auto simp: finish_tick_def Let_def split: if_splits option.splits)
qed

lemma iteration_skip:
  "tick_of env = None \<Longrightarrow> outcome (iteration d env w) = Inr w' \<Longrightarrow> w' = w"
  by (auto simp: iteration_def tick_of_def split: sum.splits list.splits option.splits if_splits)

lemma iteration_skip_no_dispatch:
  "tick_of env = None \<Longrightarrow> \<not> dispatched (iteration d env w)"
  by (auto simp: iteration_def tick_of_def split: sum.splits list.splits option.splits if_splits)

lemma iteration_tick:
  assumes "tick_of env = Some out"
  shows "iteration d env w =
     (let c = (if is_match out then confidence w + 1 else confidence w) in
      if c \<ge> 15 then
        (case create_pagerduty_incident (post env) of
           Inl e \<Rightarrow> \<lparr>dispatched = True, outcome = Inl e\<rparr>
         | Inr ack \<Rightarrow> \<lparr>dispatched = True, outcome = finish_tick d env w 0\<rparr>)
      else \<lparr>dispatched = False, outcome = finish_tick d env w c\<rparr>)"
  using assms
  by (auto simp: iteration_def tick_of_def Let_def split: sum.splits list.splits option.splits if_splits)


section \<open>Runs of the loop\<close>



lemma consume_loop_Cons_Inr:
  "outcome (iteration d env w) = Inr w' \<Longrightarrow>
   consume_loop d w (env # envs) = iteration d env w # consume_loop d w' envs"
  by (simp add: Let_def)

lemma consume_loop_Cons_Inl:
  "outcome (iteration d env w) = Inl e \<Longrightarrow>
   consume_loop d w (env # envs) = [iteration d env w]"
  by (simp add: Let_def)


lemma iteration_dispatched_iff:
  "dispatched (iteration d env w) \<longleftrightarrow>
     (tick_of env \<noteq> None \<and> confidence w + (if positive env then 1 else 0) \<ge> 15)"
proof (cases "tick_of env")
  case None
  then show ?thesis by (simp add: iteration_skip_no_dispatch)
next
  case (Some out)
  then show ?thesis
    by (auto simp: iteration_tick positive_def Let_def split: sum.splits)
qed

lemma iteration_confidence_bound:
  assumes "0 \<le> confidence w" "outcome (iteration d env w) = Inr w'"
  shows "0 \<le> confidence w' \<and> confidence w' \<le> confidence w + (if positive env then 1 else 0)"
proof (cases "tick_of env")
  case None
  then have "w' = w" using assms(2) by (rule iteration_skip)
  then show ?thesis using assms(1) by simp
next
  case (Some out)
  then show ?thesis using assms
    by (auto simp: iteration_tick positive_def Let_def split: sum.splits if_splits dest!: finish_tick_Inr)
qed

lemma few_positives_no_dispatch:
  "0 \<le> confidence w \<Longrightarrow> confidence w + int (length (filter positive envs)) < 15 \<Longrightarrow>
   s \<in> set (consume_loop d w envs) \<Longrightarrow> \<not> dispatched s"
proof (induction envs arbitrary: w)
  case Nil
  then show ?case by simp
next
  case (Cons env envs)
  have nd: "\<not> dispatched (iteration d env w)"
    using Cons.prems(2) by (auto simp: iteration_dispatched_iff split: if_splits)
  show ?case
  proof (cases "outcome (iteration d env w)")
    case (Inl e)
    then show ?thesis using Cons.prems(3) nd
      by (simp add: consume_loop_Cons_Inl del: consume_loop.simps)
  next
    case (Inr w')
    from iteration_confidence_bound[OF Cons.prems(1) Inr]
    have b: "0 \<le> confidence w'" "confidence w' + int (length (filter positive envs)) < 15"
      using Cons.prems(2) by (auto split: if_splits)
    from Cons.prems(3) Inr have "s = iteration d env w \<or> s \<in> set (consume_loop d w' envs)"
      by (simp add: consume_loop_Cons_Inr del: consume_loop.simps)
    then show ?thesis using nd Cons.IH[OF b] by blast
  qed
qed

lemma dispatches_zero_iff: "dispatches steps = 0 \<longleftrightarrow> (\<forall>s\<in>set steps. \<not> dispatched s)"
  by (simp add: dispatches_def filter_empty_conv)






lemma agree_iteration: "agree a b \<Longrightarrow> iteration d a w = iteration d b w"
proof -
  assume ag: "agree a b"
  then have pp: "post a = post b" and ss: "sleep a = sleep b"
    and sp: "same_poll (poll a) (poll b)" by (simp_all add: agree_def)
  have ft: "finish_tick d a w c = finish_tick d b w c" for c
    by (simp add: finish_tick_def ss)
  show ?thesis
  proof (cases "poll a")
    case (Inl e)
    then show ?thesis using sp by (cases "poll b") (simp_all add: iteration_def)
  next
    case (Inr xs)
    then obtain ys where ys: "poll b = Inr ys" and l2: "list_all2 same_flag xs ys"
      using sp by (cases "poll b") simp_all
    show ?thesis
    proof (cases xs)
      case Nil
      then show ?thesis using l2 Inr ys by (simp add: iteration_def)
    next
      case (Cons x xs')
      then obtain y ys' where y: "ys = y # ys'" and sf: "same_flag x y"
        using l2 by (auto simp: list_all2_Cons1)
      show ?thesis
      proof (cases x)
        case None
        then have "y = None" using sf by (cases y) simp_all
        then show ?thesis using None Cons y Inr ys by (simp add: iteration_def)
      next
        case (Some ox)
        then obtain oy where oy: "y = Some oy" using sf by (cases y) simp_all
        from sf Some oy obtain sx sy where
          "is_match ox = is_match oy" "similarity ox = Some sx" "similarity oy = Some sy"
          by auto
        then show ?thesis using Some oy Cons y Inr ys pp
          by (simp add: iteration_def Let_def ft split: sum.splits)
      qed
    qed
  qed
qed

lemma fle_unit: "(fle (Fin 0) t \<and> fle t (Fin 1)) = in_unit_interval t"
  by (cases t) (simp_all add: in_unit_interval_def)

section \<open>The claims\<close>

text \<open>
  C1. On a tick on which the elapsed counter has reached the 10 second window, the
  hit counter is reset to 0 and the elapsed counter is reset to 0 as well. The source
  resets \<open>confidence\<close> only: with 4 frames per second the elapsed counter stands at 10
  after 40 ticks without a match, and the 41st tick, which finds it there and clears
  \<open>confidence\<close>, leaves it at 10.25 instead of 0.
\<close>

theorem elapsed_not_reset_at_window_end:
  "window_after window0 (consume d4 (replicate 40 quiet)) = Some \<lparr>confidence = 0, confidence_elapsed = 10\<rparr>
   \<and> iteration d4 quiet \<lparr>confidence = 0, confidence_elapsed = 10\<rparr>
       = \<lparr>dispatched = False, outcome = Inr \<lparr>confidence = 0, confidence_elapsed = 41 / 4\<rparr>\<rparr>"
  by code_simp








text \<open>
  C5. A run of \<open>N\<close> ticks that all carry a match, with \<open>N < 15\<close> and \<open>N\<close> less than
  \<open>10 * max_fps\<close> (fewer ticks than fill the window), sends no alert.
\<close>

theorem fewer_than_15_positives_no_alert:
  assumes "\<forall>env \<in> set envs. positive env"
    and "length envs < 15"
    and "int (length envs) < 10 * max_fps d"
  shows "dispatches (consume d envs) = 0"
proof -
  have "int (length (filter positive envs)) < 15"
    using length_filter_le[of positive envs] assms(2) by linarith
  then have "confidence window0 + int (length (filter positive envs)) < 15"
    by (simp add: window0_def)
  moreover have "0 \<le> confidence window0" by (simp add: window0_def)
  ultimately have "\<forall>s \<in> set (consume_loop d window0 envs). \<not> dispatched s"
    using few_positives_no_dispatch by blast
  then show ?thesis by (simp add: dispatches_zero_iff consume_def)
qed

theorem fewer_than_15_positives_no_alert_witness:
  "positive hit \<and> length (replicate 14 hit) < 15
   \<and> int (length (replicate 14 hit)) < 10 * max_fps d4
   \<and> dispatches (consume d4 (replicate 14 hit)) = 0"
proof -
  have p: "positive hit" by code_simp
  have h1: "\<forall>env \<in> set (replicate 14 hit). positive env" using p by simp
  have h2: "length (replicate 14 hit) < 15" by simp
  have h3: "int (length (replicate 14 hit)) < 10 * max_fps d4" by (simp add: d4_def)
  from fewer_than_15_positives_no_alert[OF h1 h2 h3] p h2 h3 show ?thesis by blast
qed

text \<open>
  C6. \<open>start\<close> on a detector that is running raises \<open>RuntimeError\<close> (the
  already-running error) before it calls the client or touches the object: the
  detector is returned as it was, with its pipeline identifier, and is still running.
\<close>

theorem start_while_running_fails:
  assumes "is_running d"
  shows "start client d fps = (Some (Exn RuntimeError ''Pipeline is already running''), d)
       \<and> pipeline_id (snd (start client d fps)) = pipeline_id d
       \<and> is_running (snd (start client d fps))"
  using assms by (simp add: start_def)

theorem start_while_running_fails_witness:
  "is_running d4
   \<and> start client_ok d4 None = (Some (Exn RuntimeError ''Pipeline is already running''), d4)
   \<and> pipeline_id (snd (start client_ok d4 None)) = ''p1''"
proof -
  have h: "is_running d4" by (simp add: is_running_def d4_def)
  have p: "pipeline_id d4 = ''p1''" by (simp add: d4_def)
  from start_while_running_fails[OF h, of client_ok None] h p show ?thesis by simp
qed

text \<open>
  C7. The constructor raises \<open>ValueError\<close> (the invalid-configuration error), and
  nothing else, exactly when the source URL is empty or the threshold is not in
  \<open>[0.0, 1.0]\<close>; it returns a detector exactly when the URL is not empty and the
  threshold is in range. A threshold of 1.5 fails, and so does an empty URL.
\<close>

theorem construction_fails_iff_invalid_config:
  "((\<exists>m. FerretDetector_init url api fps p t wsn wfid = Inl (Exn ValueError m))
      \<longleftrightarrow> (url = [] \<or> \<not> in_unit_interval t))
   \<and> ((\<exists>d. FerretDetector_init url api fps p t wsn wfid = Inr d)
      \<longleftrightarrow> (url \<noteq> [] \<and> in_unit_interval t))
   \<and> (\<forall>e. FerretDetector_init url api fps p t wsn wfid = Inl e \<longrightarrow> exn_cls e = ValueError)
   \<and> (\<exists>m. FerretDetector_init url api fps p (Fin (15 / 10)) wsn wfid = Inl (Exn ValueError m))
   \<and> (\<exists>m. FerretDetector_init [] api fps p t wsn wfid = Inl (Exn ValueError m))"
  by (auto simp: FerretDetector_init_def fle_unit in_unit_interval_def)

theorem construction_fails_iff_invalid_config_witness:
  "(\<exists>d. FerretDetector_init ''rtsp://cam/live'' ''http://localhost:9001'' 4 ''ferret''
           (Fin (16 / 100)) ''local'' ''clip-frames'' = Inr d)
   \<and> (\<exists>m. FerretDetector_init ''rtsp://cam/live'' ''http://localhost:9001'' 4 ''ferret''
           NaN ''local'' ''clip-frames'' = Inl (Exn ValueError m))
   \<and> (\<exists>m. FerretDetector_init ''rtsp://cam/live'' ''http://localhost:9001'' 4 ''ferret''
           (Fin (15 / 10)) ''local'' ''clip-frames'' = Inl (Exn ValueError m))
   \<and> (\<exists>m. FerretDetector_init [] ''http://localhost:9001'' 4 ''ferret''
           (Fin (16 / 100)) ''local'' ''clip-frames'' = Inl (Exn ValueError m))"
  using construction_fails_iff_invalid_config
          [of "''rtsp://cam/live''" "''http://localhost:9001''" 4 "''ferret''" "Fin (16 / 100)" "''local''" "''clip-frames''"]
        construction_fails_iff_invalid_config
          [of "''rtsp://cam/live''" "''http://localhost:9001''" 4 "''ferret''" NaN "''local''" "''clip-frames''"]
  by (simp add: in_unit_interval_def)

text \<open>
  C8. When the poll returns outputs that are empty or whose first element is absent,
  the iteration sends no alert and leaves both counters as they are, and the loop goes
  on to the next poll with the same window.
\<close>

theorem empty_outputs_leave_window_unchanged:
  assumes "poll env = Inr outputs"
    and "outputs = [] \<or> (\<exists>rest. outputs = None # rest)"
  shows "iteration d env w = \<lparr>dispatched = False, outcome = Inr w\<rparr>
       \<and> consume_loop d w (env # envs) = \<lparr>dispatched = False, outcome = Inr w\<rparr> # consume_loop d w envs"
proof -
  have "iteration d env w = \<lparr>dispatched = False, outcome = Inr w\<rparr>"
    using assms by (auto simp: iteration_def)
  then show ?thesis by (simp add: Let_def)
qed

theorem empty_outputs_leave_window_unchanged_witness:
  "poll idle = Inr [] \<and> poll absent = Inr [None]
   \<and> iteration d4 idle \<lparr>confidence = 7, confidence_elapsed = 3\<rparr>
       = \<lparr>dispatched = False, outcome = Inr \<lparr>confidence = 7, confidence_elapsed = 3\<rparr>\<rparr>
   \<and> iteration d4 absent \<lparr>confidence = 7, confidence_elapsed = 3\<rparr>
       = \<lparr>dispatched = False, outcome = Inr \<lparr>confidence = 7, confidence_elapsed = 3\<rparr>\<rparr>"
proof -
  have h1: "poll idle = Inr []" by (simp add: idle_def)
  have h2: "poll absent = Inr [None]" by (simp add: absent_def)
  from empty_outputs_leave_window_unchanged[OF h1, of d4 "\<lparr>confidence = 7, confidence_elapsed = 3\<rparr>" "[]"]
       empty_outputs_leave_window_unchanged[OF h2, of d4 "\<lparr>confidence = 7, confidence_elapsed = 3\<rparr>" "[]"]
       h1 h2
  show ?thesis by simp
qed

text \<open>
  C9. Two runs of equal length that agree on every match flag and differ in similarity
  values only take the same steps: the same alert decisions and the same counters after
  every iteration, from any window and so from the initial one.
\<close>

theorem similarity_never_influences_decisions:
  assumes "list_all2 agree envs1 envs2"
  shows "consume_loop d w envs1 = consume_loop d w envs2 \<and> consume d envs1 = consume d envs2"
proof -
  have "consume_loop d w envs1 = consume_loop d w envs2" for w
    using assms
  proof (induction envs1 envs2 arbitrary: w rule: list_all2_induct)
    case Nil
    then show ?case by simp
  next
    case (Cons a envs1 b envs2)
    then show ?case by (simp add: agree_iteration[OF Cons.hyps(1)] Let_def split: sum.splits)
  qed
  then show ?thesis by (simp add: consume_def)
qed

theorem similarity_never_influences_decisions_witness:
  "list_all2 agree (replicate 15 hit) (replicate 15 hit_dim)
   \<and> hit \<noteq> hit_dim
   \<and> consume d4 (replicate 15 hit) = consume d4 (replicate 15 hit_dim)"
proof -
  have a: "agree hit hit_dim" by code_simp
  have h: "list_all2 agree (replicate 15 hit) (replicate 15 hit_dim)"
    using a by (simp add: list_all2_conv_all_nth)
  have n: "hit \<noteq> hit_dim" by (simp add: hit_def hit_dim_def)
  from similarity_never_influences_decisions[OF h, of d4 window0] h n show ?thesis by simp
qed



end
